theory Spec2Isabelle
  imports Main "HOL-Library.Word"
begin

section \<open>The eff package: data\<close>

text \<open>
  The package \<open>eff\<close> (file \<open>eff.go\<close>) wraps an SDL window in a render loop. Go's
  \<open>int\<close> is taken at 64 bits, \<open>uint8\<close>, \<open>int32\<close> and \<open>uint32\<close> at their widths;
  a conversion to a narrower integer type keeps the low bits (\<open>ucast\<close>).
\<close>

type_synonym go_int = "64 word"

record Point =
  X :: go_int
  Y :: go_int

record Color =
  R :: go_int
  G :: go_int
  B :: go_int
  A :: go_int

text \<open>The backend's point type \<open>sdl.Point\<close>: two \<open>int32\<close> fields.\<close>

record sdl_Point =
  sdl_X :: "32 word"
  sdl_Y :: "32 word"

text \<open>
  The events \<open>Run\<close> distinguishes in its type switch: a quit event, a key-up event with
  its key symbol, and every other event (which no case of the switch matches).
\<close>

type_synonym Keycode = "32 word"

datatype sdl_event = QuitEvent | KeyUpEvent Keycode | OtherEvent

definition K_q :: Keycode where
  "K_q = 113"

definition K_f :: Keycode where
  "K_f = 102"

definition WINDOW_FULLSCREEN :: "32 word" where
  "WINDOW_FULLSCREEN = 1"

definition WINDOW_OPENGL :: "32 word" where
  "WINDOW_OPENGL = 2"

definition WINDOWPOS_UNDEFINED :: "32 word" where
  "WINDOWPOS_UNDEFINED = 0x1FFF0000"

definition RENDERER_ACCELERATED :: "32 word" where
  "RENDERER_ACCELERATED = 2"

definition RENDERER_PRESENTVSYNC :: "32 word" where
  "RENDERER_PRESENTVSYNC = 4"

definition windowTitle :: string where
  "windowTitle = ''Effulgent''"

definition frameRate :: nat where
  "frameRate = 90"

definition frameTime :: nat where
  "frameTime = 1000 div frameRate"

text \<open>
  Everything \<open>Run\<close> and \<open>DrawPoints\<close> do to the outside is a call: of the SDL
  backend (\<open>sdl_call\<close>), of a registered drawable's method, or a line written to
  standard error. A call that reads from the backend carries what it read
  (\<open>PollEvent\<close> the event or nil, \<open>GetTicks\<close> the tick count).

  \<open>Run\<close> makes the calls of the drawables' methods and the writes to standard error
  itself. It hands every backend call but the \<open>GetTicks\<close> of line 133 to the
  backend's thread, as a closure sent on \<open>sdl.CallQueue\<close>. The send hands the
  closure over; it does not wait for the closure to run. The backend's thread runs the
  closures one after the other, in the order they were sent.

  The trace of a run lists the calls in the order \<open>Run\<close> issues them: a backend call
  stands where its closure is sent, every other call where it is made. The trace so
  gives the order of the backend's calls among themselves (\<open>backend_calls\<close> below)
  and of \<open>Run\<close>'s own calls among themselves. It does not say that a closure has
  run when \<open>Run\<close> makes a later call of its own.

  The variables \<open>fullscreen\<close> and \<open>lastFrameTime\<close> are read and written by closures
  only, so their values follow from the order of the closures. The variables \<open>err\<close>
  and \<open>running\<close> are written by closures and read by \<open>Run\<close> itself, with nothing
  between the send and the read: what \<open>Run\<close> reads depends on which closures have run
  by then. The channel is declared in the SDL binding, not in this package, so how far
  the backend's thread has come at each such read is taken from the backend's answers.
\<close>

datatype sdl_call =
    CreateWindow string "32 word" "32 word" go_int go_int "32 word"
  | WindowDestroy
  | CreateRenderer "32 word" "32 word"
  | RendererDestroy
  | RendererClear
  | SetDrawColor "8 word" "8 word" "8 word" "8 word"
  | RenderDrawPoints "sdl_Point list"
  | Present
  | PollEvent "sdl_event option"
  | SetFullscreen "32 word"
  | GetTicks "32 word"
  | Delay "32 word"

datatype 'd call =
    Backend sdl_call
  | Stderr string
  | Init 'd
  | Draw 'd
  | Update 'd

text \<open>
  What the backend answers during one run: the result of creating the window and the
  renderer (an error message, or a handle), the tick count read before the loop, and
  for each iteration of the loop the events pending when it polls and the tick count
  it reads. The list of iterations is finite; a run that is still looping when the
  list ends has not returned.

  The timing of the backend's thread is part of the answers. \<open>ran_at_window_check\<close>
  and \<open>ran_at_renderer_check\<close> say how many of the closures sent so far have run when
  \<open>Run\<close> reads \<open>err\<close> at line 95 and at line 112. \<open>lag\<close> says, for the check of
  \<open>running\<close> that follows an iteration, how many of the latest polling closures
  have not run yet (0 when the iteration's own polling closure has run).
\<close>

record frame_in =
  pending :: "sdl_event list"
  ticks :: "32 word"
  lag :: nat

record backend =
  create_window :: "string + nat"
  create_renderer :: "string + nat"
  first_ticks :: "32 word"
  frames :: "frame_in list"
  ran_at_window_check :: nat
  ran_at_renderer_check :: nat

record 'd SDLCanvas =
  window :: "nat option"
  renderer :: "nat option"
  drawables :: "'d list"
  width :: go_int
  height :: go_int

record loop_state =
  running :: bool
  fullscreen :: bool
  lastFrameTime :: "32 word"

datatype error = NilPointerDereference

section \<open>The canvas's accessors\<close>

definition SetWidth :: "'d SDLCanvas \<Rightarrow> go_int \<Rightarrow> 'd SDLCanvas" where
  "SetWidth sdlCanvas w = sdlCanvas\<lparr>width := w\<rparr>"

definition GetWidth :: "'d SDLCanvas \<Rightarrow> go_int" where
  "GetWidth sdlCanvas = width sdlCanvas"

definition SetHeight :: "'d SDLCanvas \<Rightarrow> go_int \<Rightarrow> 'd SDLCanvas" where
  "SetHeight sdlCanvas h = sdlCanvas\<lparr>height := h\<rparr>"

definition GetHeight :: "'d SDLCanvas \<Rightarrow> go_int" where
  "GetHeight sdlCanvas = height sdlCanvas"

definition AddDrawable :: "'d SDLCanvas \<Rightarrow> 'd \<Rightarrow> 'd SDLCanvas" where
  "AddDrawable sdlCanvas drawable = sdlCanvas\<lparr>drawables := drawables sdlCanvas @ [drawable]\<rparr>"

section \<open>Run\<close>

text \<open>
  The body of the event switch (lines 137 to 152): a quit event and a key-up of \<open>q\<close>
  clear \<open>running\<close>; a key-up of \<open>f\<close> negates \<open>fullscreen\<close> and applies the new
  value to the window; nothing else matches.
\<close>

fun handle_event :: "sdl_event \<Rightarrow> loop_state \<Rightarrow> loop_state \<times> sdl_call list" where
  "handle_event QuitEvent s = (s\<lparr>running := False\<rparr>, [])"
| "handle_event (KeyUpEvent key) s =
     (if key = K_q then (s\<lparr>running := False\<rparr>, [])
      else if key = K_f then
        (let s' = s\<lparr>fullscreen := \<not> fullscreen s\<rparr>
         in (s', [SetFullscreen (if fullscreen s' then WINDOW_FULLSCREEN else 0)]))
      else (s, []))"
| "handle_event OtherEvent s = (s, [])"

text \<open>The polling loop of line 136: it handles events until \<open>PollEvent\<close> returns nil.\<close>

fun poll_events :: "sdl_event list \<Rightarrow> loop_state \<Rightarrow> loop_state \<times> sdl_call list" where
  "poll_events [] s = (s, [PollEvent None])"
| "poll_events (e # es) s =
     (let (s1, t1) = handle_event e s;
          (s2, t2) = poll_events es s1
      in (s2, PollEvent (Some e) # t1 @ t2))"

text \<open>The loop over the drawables of lines 159 to 162.\<close>

fun draw_update :: "'d list \<Rightarrow> 'd call list" where
  "draw_update [] = []"
| "draw_update (drawable # rest) = Draw drawable # Update drawable # draw_update rest"

text \<open>The closure of lines 164 to 171: read the ticks, present, delay, store the ticks.\<close>

definition present_and_pace :: "32 word \<Rightarrow> loop_state \<Rightarrow> loop_state \<times> sdl_call list" where
  "present_and_pace currentFrameTime s =
     (s\<lparr>lastFrameTime := currentFrameTime\<rparr>,
      [GetTicks currentFrameTime, Present] @
      (if currentFrameTime - lastFrameTime s < of_nat frameTime
       then [Delay (of_nat frameTime - (currentFrameTime - lastFrameTime s))]
       else []))"

text \<open>
  One iteration of the loop (lines 135 to 171): the closure that polls and clears is
  sent, \<open>Run\<close> calls the drawables, the closure that presents and paces is sent. The
  state is the one the closures work on.
\<close>

definition frame :: "'d list \<Rightarrow> frame_in \<Rightarrow> loop_state \<Rightarrow> loop_state \<times> 'd call list" where
  "frame ds f s =
     (let (s1, t1) = poll_events (pending f) s;
          (s2, t2) = present_and_pace (ticks f) s1
      in (s2, map Backend (t1 @ [SetDrawColor 0 0 0 0xFF, RendererClear]) @ draw_update ds @ map Backend t2))"

text \<open>
  What the check of line 134 reads: \<open>hist\<close> holds the values of \<open>running\<close> after each
  polling closure sent so far, the latest first. With \<open>n\<close> of the latest not run yet,
  the check reads the value after the ones that have run, and the \<open>true\<close> of line 131
  when none has.
\<close>

definition seen_running :: "bool list \<Rightarrow> nat \<Rightarrow> bool" where
  "seen_running hist n = (if n < length hist then hist ! n else True)"

text \<open>
  The loop \<open>for running\<close>, entered with what the check has read (\<open>seen\<close>): it returns
  the calls issued and whether the loop was left. It is left when the check reads
  false; when the backend's answers run out first, the loop has not been left.
\<close>

fun run_loop ::
  "'d list \<Rightarrow> frame_in list \<Rightarrow> loop_state \<Rightarrow> bool list \<Rightarrow> bool \<Rightarrow> 'd call list \<times> bool" where
  "run_loop ds [] s hist seen = ([], \<not> seen)"
| "run_loop ds (f # fs) s hist seen =
     (if seen then
        (let (s1, t1) = frame ds f s;
             hist1 = running s1 # hist;
             (t2, left) = run_loop ds fs s1 hist1 (seen_running hist1 (lag f))
         in (t1 @ t2, left))
      else ([], True))"

text \<open>
  The value of \<open>err\<close> once the first \<open>n\<close> closures have run: nil at its declaration,
  then what creating the window returned, then what creating the renderer returned.
\<close>

definition err_after :: "backend \<Rightarrow> nat \<Rightarrow> string option" where
  "err_after be n =
     (if n = 0 then None
      else if n = 1 then (case create_window be of Inl e \<Rightarrow> Some e | Inr w \<Rightarrow> None)
      else (case create_renderer be of Inl e \<Rightarrow> Some e | Inr r \<Rightarrow> None))"

text \<open>
  \<open>Run\<close> returns the canvas as it is once the closures sent have run, the trace, and
  the status it returns with (\<open>None\<close> while it has not returned). At line 95 one
  closure has been sent, at line 112 two; a closure that has run at the first read
  has run at the second. The deferred closures are sent when \<open>Run\<close> returns, the last
  deferred first.
\<close>

definition Run :: "backend \<Rightarrow> 'd SDLCanvas \<Rightarrow> 'd SDLCanvas \<times> 'd call list \<times> int option" where
  "Run be sdlCanvas =
     (let t0 = [Backend (CreateWindow windowTitle WINDOWPOS_UNDEFINED WINDOWPOS_UNDEFINED
                  (GetWidth sdlCanvas) (GetHeight sdlCanvas) WINDOW_OPENGL)];
          c1 = sdlCanvas\<lparr>window := (case create_window be of Inl e \<Rightarrow> None | Inr w \<Rightarrow> Some w)\<rparr>;
          n1 = min 1 (ran_at_window_check be)
      in case err_after be n1 of
        Some err \<Rightarrow>
          (c1, t0 @ [Stderr (''Failed to create window: '' @ err @ [CHR 0x0A])], Some 1)
      | None \<Rightarrow>
          (let t1 = t0 @ [Backend (CreateRenderer (- 1) (or RENDERER_ACCELERATED RENDERER_PRESENTVSYNC))];
               c2 = c1\<lparr>renderer := (case create_renderer be of Inl e \<Rightarrow> None | Inr r \<Rightarrow> Some r)\<rparr>;
               n2 = min 2 (max n1 (ran_at_renderer_check be))
           in case err_after be n2 of
             Some err \<Rightarrow>
               (c2,
                t1 @ [Stderr (''Failed to create renderer:  '' @ err @ [CHR 0x0A]), Backend WindowDestroy],
                Some 2)
           | None \<Rightarrow>
               (let t2 = t1 @ [Backend RendererClear] @ map Init (drawables c2) @
                           [Backend (GetTicks (first_ticks be))];
                    (t3, left) = run_loop (drawables c2) (frames be)
                                   \<lparr>running = True, fullscreen = False, lastFrameTime = first_ticks be\<rparr>
                                   [] True
                in if left then (c2, t2 @ t3 @ [Backend RendererDestroy, Backend WindowDestroy], Some 0)
                   else (c2, t2 @ t3, None))))"

section \<open>DrawPoints\<close>

text \<open>
  The memory \<open>DrawPoints\<close> works on: the caller's slice behind the pointer \<open>points\<close>
  and the slice \<open>sdlPoints\<close> it makes. The loop of lines 188 to 190 reads the first
  and writes the second, index by index.
\<close>

record draw_mem =
  points_mem :: "Point list"
  sdlPoints :: "sdl_Point list"

function convert_loop :: "nat \<Rightarrow> draw_mem \<Rightarrow> draw_mem" where
  "convert_loop i m =
     (if i < length (points_mem m) then
        convert_loop (Suc i)
          (m\<lparr>sdlPoints := (sdlPoints m)
                [i := \<lparr>sdl_X = ucast (X (points_mem m ! i)), sdl_Y = ucast (Y (points_mem m ! i))\<rparr>]\<rparr>)
      else m)"
  by pat_completeness auto
termination
  by (relation "measure (\<lambda>(i, m). length (points_mem m) - i)") auto

declare convert_loop.simps [simp del]

text \<open>
  \<open>DrawPoints\<close> sends one closure. The model gives the backend calls the closure
  makes when it runs, and either the memory after it has run or the panic of
  dereferencing a nil \<open>points\<close> (which happens after the colour was set).
\<close>

definition DrawPoints :: "Point list option \<Rightarrow> Color \<Rightarrow> sdl_call list \<times> (error + draw_mem)" where
  "DrawPoints points color =
     (let t0 = [SetDrawColor (ucast (R color)) (ucast (G color)) (ucast (B color)) (ucast (A color))]
      in case points of
        None \<Rightarrow> (t0, Inl NilPointerDereference)
      | Some ps \<Rightarrow>
          (let m = convert_loop 0
                     \<lparr>points_mem = ps,
                      sdlPoints = replicate (length ps) \<lparr>sdl_X = 0, sdl_Y = 0\<rparr>\<rparr>
           in (t0 @ [RenderDrawPoints (sdlPoints m)], Inr m)))"

section \<open>Reading a trace\<close>

fun is_Init :: "'d call \<Rightarrow> bool" where
  "is_Init (Init d) = True"
| "is_Init c = False"

fun is_drawable_call :: "'d call \<Rightarrow> bool" where
  "is_drawable_call (Backend b) = False"
| "is_drawable_call (Stderr msg) = False"
| "is_drawable_call c = True"

fun backend_calls :: "'d call list \<Rightarrow> sdl_call list" where
  "backend_calls [] = []"
| "backend_calls (Backend b # t) = b # backend_calls t"
| "backend_calls (c # t) = backend_calls t"



fun is_RenderDrawPoints :: "sdl_call \<Rightarrow> bool" where
  "is_RenderDrawPoints (RenderDrawPoints ps) = True"
| "is_RenderDrawPoints b = False"

fun is_CreateRenderer :: "sdl_call \<Rightarrow> bool" where
  "is_CreateRenderer (CreateRenderer index flags) = True"
| "is_CreateRenderer b = False"

text \<open>
  The four channels as integers: the ones a \<open>SetDrawColor\<close> call passes to the backend
  (unsigned bytes), and the ones of a \<open>Color\<close> (signed Go integers).
\<close>

fun color_passed :: "sdl_call \<Rightarrow> int list" where
  "color_passed (SetDrawColor r g b a) = [uint r, uint g, uint b, uint a]"
| "color_passed b = []"

definition color_given :: "Color \<Rightarrow> int list" where
  "color_given color = [sint (R color), sint (G color), sint (B color), sint (A color)]"


section \<open>The shape of a trace\<close>



lemma frame_snd:
  "snd (frame ds f s) =
     map Backend (snd (poll_events (pending f) s)) @
     [Backend (SetDrawColor 0 0 0 0xFF), Backend RendererClear] @ draw_update ds @
     map Backend (snd (present_and_pace (ticks f) (fst (poll_events (pending f) s))))"
  by (simp add: frame_def split_beta)


lemma run_loop_Cons_fst:
  "fst (run_loop ds (f # fs) s hist True) =
     snd (frame ds f s) @
     fst (run_loop ds fs (fst (frame ds f s)) (running (fst (frame ds f s)) # hist)
            (seen_running (running (fst (frame ds f s)) # hist) (lag f)))"
  by (simp add: split_beta Let_def)


lemma run_loop_not_seen: "run_loop ds fs s hist False = ([], True)"
  by (cases fs) simp_all

declare run_loop.simps(2) [simp del]


lemma err_after_created:
  "create_window be = Inr w \<Longrightarrow> create_renderer be = Inr r \<Longrightarrow> err_after be n = None"
  by (simp add: err_after_def)

lemma filter_map_Backend: "filter is_drawable_call (map Backend t) = []"
  by (induction t) simp_all

lemma filter_Init_map_Backend: "filter is_Init (map Backend t) = []"
  by (induction t) simp_all

lemma draw_update_length: "length (draw_update ds) = 2 * length ds"
  by (induction ds) simp_all

lemma draw_update_nth:
  "i < length ds \<Longrightarrow>
   draw_update ds ! (2 * i) = Draw (ds ! i) \<and> draw_update ds ! (2 * i + 1) = Update (ds ! i)"
proof (induction ds arbitrary: i)
  case Nil
  then show ?case by simp
next
  case (Cons d ds)
  then show ?case by (cases i) simp_all
qed

lemma filter_draw_update: "filter is_drawable_call (draw_update ds) = draw_update ds"
  by (induction ds) simp_all

lemma filter_Init_draw_update: "filter is_Init (draw_update ds) = []"
  by (induction ds) simp_all

lemma frame_drawable_calls:
  "filter is_drawable_call (snd (frame ds f s)) = draw_update ds"
  by (simp add: frame_snd filter_map_Backend filter_draw_update)

lemma frame_no_Init: "filter is_Init (snd (frame ds f s)) = []"
  by (simp add: frame_snd filter_Init_map_Backend filter_Init_draw_update)

lemma run_loop_no_Init: "filter is_Init (fst (run_loop ds fs s hist seen)) = []"
proof (induction fs arbitrary: s hist seen)
  case Nil
  show ?case by simp
next
  case (Cons f fs)
  show ?case
  proof (cases seen)
    case True
    then show ?thesis by (simp add: run_loop_Cons_fst frame_no_Init Cons.IH)
  next
    case False
    then show ?thesis by (simp add: run_loop_not_seen)
  qed
qed



lemma backend_calls_map_Init: "backend_calls (map Init ds) = []"
  by (induction ds) simp_all




text \<open>
  Claim C2. In every iteration of the loop, the calls of the drawables' methods are, for
  the drawables \<open>d\<^sub>0, d\<^sub>1, ...\<close> in registration order, \<open>Draw d\<^sub>0, Update d\<^sub>0,
  Draw d\<^sub>1, Update d\<^sub>1, ...\<close>: the call at position \<open>2 * i\<close> is \<open>Draw\<close> of the
  \<open>i\<close>-th drawable and the call at position \<open>2 * i + 1\<close> is its \<open>Update\<close>, so a
  drawable's \<open>Draw\<close> and \<open>Update\<close> are both done before the next drawable's \<open>Draw\<close>.
\<close>

theorem frame_interleaves_draw_update:
  "length (filter is_drawable_call (snd (frame ds f s))) = 2 * length ds \<and>
   (\<forall>i<length ds.
      filter is_drawable_call (snd (frame ds f s)) ! (2 * i) = Draw (ds ! i) \<and>
      filter is_drawable_call (snd (frame ds f s)) ! (2 * i + 1) = Update (ds ! i))"
  using draw_update_nth [of _ ds]
  by (simp add: frame_drawable_calls draw_update_length)

theorem frame_interleaves_draw_update_witness:
  "length (filter is_drawable_call (snd (frame [5, 7 :: nat] \<lparr>pending = [OtherEvent], ticks = 20, lag = 0\<rparr>
      \<lparr>running = True, fullscreen = False, lastFrameTime = 0\<rparr>))) = 4 \<and>
   filter is_drawable_call (snd (frame [5, 7 :: nat] \<lparr>pending = [OtherEvent], ticks = 20, lag = 0\<rparr>
      \<lparr>running = True, fullscreen = False, lastFrameTime = 0\<rparr>)) ! 2 = Draw 7 \<and>
   filter is_drawable_call (snd (frame [5, 7 :: nat] \<lparr>pending = [OtherEvent], ticks = 20, lag = 0\<rparr>
      \<lparr>running = True, fullscreen = False, lastFrameTime = 0\<rparr>)) ! 3 = Update 7"
  using frame_interleaves_draw_update [of "[5, 7 :: nat]" "\<lparr>pending = [OtherEvent], ticks = 20, lag = 0\<rparr>"
      "\<lparr>running = True, fullscreen = False, lastFrameTime = 0\<rparr>", THEN conjunct2, rule_format, of 1]
    frame_interleaves_draw_update [of "[5, 7 :: nat]" "\<lparr>pending = [OtherEvent], ticks = 20, lag = 0\<rparr>"
      "\<lparr>running = True, fullscreen = False, lastFrameTime = 0\<rparr>", THEN conjunct1]
  by simp

text \<open>
  Claim C1. When the window and the renderer are created, whatever the timing of the
  backend's thread, the trace of \<open>Run\<close> is the three backend calls that set up the
  window and the renderer, then one \<open>Init\<close>
  for each registered drawable in registration order, then a rest without any
  \<open>Init\<close>: every drawable is initialised exactly once, in order, and before any
  \<open>Draw\<close> or \<open>Update\<close>.
\<close>

theorem Run_inits_first:
  assumes "create_window be = Inr w" and "create_renderer be = Inr r"
  shows "\<exists>post. fst (snd (Run be c)) =
           [Backend (CreateWindow windowTitle WINDOWPOS_UNDEFINED WINDOWPOS_UNDEFINED
              (width c) (height c) WINDOW_OPENGL),
            Backend (CreateRenderer (- 1) (or RENDERER_ACCELERATED RENDERER_PRESENTVSYNC)),
            Backend RendererClear] @
           map Init (drawables c) @ post \<and>
         (\<forall>x\<in>set post. \<not> is_Init x)"
proof -
  let ?s0 = "\<lparr>running = True, fullscreen = False, lastFrameTime = first_ticks be\<rparr>"
  let ?loop = "run_loop (drawables c) (frames be) ?s0 [] True"
  have n: "\<forall>x\<in>set (fst ?loop). \<not> is_Init x"
    using run_loop_no_Init [of "drawables c" "frames be" ?s0 "[]" True] by (simp add: filter_empty_conv)
  note ok = err_after_created [OF assms]
  show ?thesis
  proof (cases "snd ?loop")
    case True
    then show ?thesis using n
      by (simp add: Run_def assms ok split_beta GetWidth_def GetHeight_def)
  next
    case False
    then show ?thesis using n
      by (simp add: Run_def assms ok split_beta GetWidth_def GetHeight_def)
  qed
qed

theorem Run_inits_first_witness:
  "\<exists>post. fst (snd (Run \<lparr>create_window = Inr 1, create_renderer = Inr 2, first_ticks = 0,
                frames = [\<lparr>pending = [QuitEvent], ticks = 3, lag = 0\<rparr>],
                ran_at_window_check = 0, ran_at_renderer_check = 1\<rparr>
             (AddDrawable (AddDrawable
                \<lparr>window = None, renderer = None, drawables = [], width = 640, height = 480\<rparr>
                (5 :: nat)) 7))) =
      [Backend (CreateWindow windowTitle WINDOWPOS_UNDEFINED WINDOWPOS_UNDEFINED 640 480 WINDOW_OPENGL),
       Backend (CreateRenderer (- 1) (or RENDERER_ACCELERATED RENDERER_PRESENTVSYNC)),
       Backend RendererClear, Init 5, Init 7] @ post"
proof -
  let ?be = "\<lparr>create_window = Inr 1, create_renderer = Inr 2, first_ticks = 0,
       frames = [\<lparr>pending = [QuitEvent], ticks = 3, lag = 0\<rparr>],
                ran_at_window_check = 0, ran_at_renderer_check = 1\<rparr>"
  let ?c = "AddDrawable (AddDrawable
       \<lparr>window = None, renderer = None, drawables = [], width = 640, height = 480\<rparr> (5 :: nat)) 7"
  have a: "create_window ?be = Inr 1" by simp
  have b: "create_renderer ?be = Inr 2" by simp
  from Run_inits_first [OF a b, of ?c] obtain post where
    "fst (snd (Run ?be ?c)) =
      [Backend (CreateWindow windowTitle WINDOWPOS_UNDEFINED WINDOWPOS_UNDEFINED
         (width ?c) (height ?c) WINDOW_OPENGL),
       Backend (CreateRenderer (- 1) (or RENDERER_ACCELERATED RENDERER_PRESENTVSYNC)),
       Backend RendererClear] @ map Init (drawables ?c) @ post"
    by blast
  then have "fst (snd (Run ?be ?c)) =
      [Backend (CreateWindow windowTitle WINDOWPOS_UNDEFINED WINDOWPOS_UNDEFINED 640 480 WINDOW_OPENGL),
       Backend (CreateRenderer (- 1) (or RENDERER_ACCELERATED RENDERER_PRESENTVSYNC)),
       Backend RendererClear, Init 5, Init 7] @ post"
    by (simp add: AddDrawable_def)
  then show ?thesis by (rule exI)
qed














text \<open>
  Claim C3 holds where the closure that creates the window has run when \<open>Run\<close> reads
  \<open>err\<close> at line 95: then \<open>Run\<close> writes the message, returns 1, sends no closure to
  create a renderer and calls no drawable.
\<close>

lemma Run_window_failure_seen:
  assumes "create_window be = Inl err" and "0 < ran_at_window_check be"
  shows "snd (snd (Run be c)) = Some 1 \<and>
    fst (snd (Run be c)) =
      [Backend (CreateWindow windowTitle WINDOWPOS_UNDEFINED WINDOWPOS_UNDEFINED
         (width c) (height c) WINDOW_OPENGL),
       Stderr (''Failed to create window: '' @ err @ [CHR 0x0A])]"
proof -
  have n1: "min 1 (ran_at_window_check be) = 1"
    using assms(2) by simp
  have e1: "err_after be 1 = Some err"
    by (simp add: err_after_def assms(1))
  show ?thesis
    unfolding Run_def Let_def n1 e1 by (simp add: GetWidth_def GetHeight_def)
qed

text \<open>
  The code does not keep claim C3: nothing makes \<open>Run\<close> wait for the closure between
  the send of line 85 and the read of line 95. With the window failing and the closure not
  yet run at line 95, \<open>Run\<close> reads nil, goes on to send the closure that creates the
  renderer, finds the window's error in \<open>err\<close> at line 112, reports it as the
  renderer's and returns 2.
\<close>

theorem Run_window_failure_read_early:
  "Run \<lparr>create_window = Inl ''no display'', create_renderer = Inl ''invalid window'',
        first_ticks = 0, frames = [], ran_at_window_check = 0, ran_at_renderer_check = 1\<rparr>
       \<lparr>window = None, renderer = None, drawables = [5, 7 :: nat], width = 640, height = 480\<rparr> =
     (\<lparr>window = None, renderer = None, drawables = [5, 7], width = 640, height = 480\<rparr>,
      [Backend (CreateWindow windowTitle WINDOWPOS_UNDEFINED WINDOWPOS_UNDEFINED 640 480 WINDOW_OPENGL),
       Backend (CreateRenderer (- 1) (or RENDERER_ACCELERATED RENDERER_PRESENTVSYNC)),
       Stderr (''Failed to create renderer:  no display'' @ [CHR 0x0A]),
       Backend WindowDestroy],
      Some 2)"
  by (simp add: Run_def err_after_def GetWidth_def GetHeight_def)

text \<open>
  Claim C4 holds where the closure that creates the renderer has run when \<open>Run\<close> reads
  \<open>err\<close> at line 112, but for the order in time of the window's destruction: \<open>Run\<close>
  writes the message, sends the closure that destroys the window as its last call,
  returns 2 and calls no drawable.
\<close>

lemma Run_renderer_failure_seen:
  assumes "create_window be = Inr w" and "create_renderer be = Inl err"
    and "2 \<le> ran_at_renderer_check be"
  shows "snd (snd (Run be c)) = Some 2 \<and>
    fst (snd (Run be c)) =
      [Backend (CreateWindow windowTitle WINDOWPOS_UNDEFINED WINDOWPOS_UNDEFINED
         (width c) (height c) WINDOW_OPENGL),
       Backend (CreateRenderer (- 1) (or RENDERER_ACCELERATED RENDERER_PRESENTVSYNC)),
       Stderr (''Failed to create renderer:  '' @ err @ [CHR 0x0A]),
       Backend WindowDestroy]"
proof -
  have e1: "err_after be (min 1 (ran_at_window_check be)) = None"
    by (simp add: err_after_def assms(1))
  have n2: "min 2 (max (min 1 (ran_at_window_check be)) (ran_at_renderer_check be)) = 2"
    using assms(3) by simp
  have e2: "err_after be 2 = Some err"
    by (simp add: err_after_def assms(2))
  show ?thesis
    unfolding Run_def Let_def e1 n2 e2 by (simp add: GetWidth_def GetHeight_def)
qed

text \<open>
  The code does not keep claim C4: nothing makes \<open>Run\<close> wait for the closure between
  the send of line 105 and the read of line 112. With the renderer failing and its closure
  not yet run at line 112, \<open>Run\<close> reads the nil left by the window's creation,
  initialises the drawables and enters the loop: here it draws one frame and returns 0.
\<close>

theorem Run_renderer_failure_read_early:
  "snd (snd (Run \<lparr>create_window = Inr 1, create_renderer = Inl ''no driver'', first_ticks = 0,
        frames = [\<lparr>pending = [QuitEvent], ticks = 3, lag = 0\<rparr>],
        ran_at_window_check = 1, ran_at_renderer_check = 1\<rparr>
       \<lparr>window = None, renderer = None, drawables = [5, 7 :: nat], width = 640, height = 480\<rparr>)) = Some 0 \<and>
   filter is_drawable_call (fst (snd (Run \<lparr>create_window = Inr 1, create_renderer = Inl ''no driver'',
        first_ticks = 0, frames = [\<lparr>pending = [QuitEvent], ticks = 3, lag = 0\<rparr>],
        ran_at_window_check = 1, ran_at_renderer_check = 1\<rparr>
       \<lparr>window = None, renderer = None, drawables = [5, 7 :: nat], width = 640, height = 480\<rparr>))) =
     [Init 5, Init 7, Draw 5, Update 5, Draw 7, Update 7]"
  by (simp add: Run_def err_after_def run_loop.simps frame_def present_and_pace_def
      seen_running_def Let_def)















section \<open>The calls of DrawPoints\<close>

lemma convert_loop_spec:
  assumes "i \<le> length (points_mem m)" and "length (sdlPoints m) = length (points_mem m)"
  shows "points_mem (convert_loop i m) = points_mem m \<and>
         sdlPoints (convert_loop i m) =
           take i (sdlPoints m) @
           map (\<lambda>p. \<lparr>sdl_X = ucast (X p), sdl_Y = ucast (Y p)\<rparr>) (drop i (points_mem m))"
  using assms
proof (induction i m rule: convert_loop.induct)
  case (1 i m)
  show ?case
  proof (cases "i < length (points_mem m)")
    case True
    let ?v = "\<lparr>sdl_X = ucast (X (points_mem m ! i)), sdl_Y = ucast (Y (points_mem m ! i))\<rparr>"
    let ?m = "m\<lparr>sdlPoints := (sdlPoints m)[i := ?v]\<rparr>"
    have step: "convert_loop i m = convert_loop (Suc i) ?m"
      using True by (subst convert_loop.simps) simp
    have ih: "points_mem (convert_loop (Suc i) ?m) = points_mem m \<and>
         sdlPoints (convert_loop (Suc i) ?m) =
           take (Suc i) ((sdlPoints m)[i := ?v]) @
           map (\<lambda>p. \<lparr>sdl_X = ucast (X p), sdl_Y = ucast (Y p)\<rparr>) (drop (Suc i) (points_mem m))"
      using "1.IH" [OF True] True "1.prems" by simp
    have tk: "take (Suc i) ((sdlPoints m)[i := ?v]) = take i (sdlPoints m) @ [?v]"
      using True "1.prems"(2) by (simp add: take_Suc_conv_app_nth)
    have dr: "drop i (points_mem m) = points_mem m ! i # drop (Suc i) (points_mem m)"
      using True by (simp add: Cons_nth_drop_Suc)
    show ?thesis
      unfolding step using ih by (simp only: tk dr list.map append_assoc append_Cons append_Nil)
  next
    case False
    then have "convert_loop i m = m"
      by (subst convert_loop.simps) simp
    then show ?thesis
      using False "1.prems" by simp
  qed
qed

lemma DrawPoints_Some:
  "DrawPoints (Some ps) color =
     ([SetDrawColor (ucast (R color)) (ucast (G color)) (ucast (B color)) (ucast (A color)),
       RenderDrawPoints (map (\<lambda>p. \<lparr>sdl_X = ucast (X p), sdl_Y = ucast (Y p)\<rparr>) ps)],
      Inr \<lparr>points_mem = ps,
           sdlPoints = map (\<lambda>p. \<lparr>sdl_X = ucast (X p), sdl_Y = ucast (Y p)\<rparr>) ps\<rparr>)"
proof -
  let ?m0 = "\<lparr>points_mem = ps, sdlPoints = replicate (length ps) \<lparr>sdl_X = 0, sdl_Y = 0\<rparr>\<rparr>"
  have "points_mem (convert_loop 0 ?m0) = ps \<and>
        sdlPoints (convert_loop 0 ?m0) = map (\<lambda>p. \<lparr>sdl_X = ucast (X p), sdl_Y = ucast (Y p)\<rparr>) ps"
    using convert_loop_spec [of 0 ?m0] by simp
  then have "convert_loop 0 ?m0 =
      \<lparr>points_mem = ps, sdlPoints = map (\<lambda>p. \<lparr>sdl_X = ucast (X p), sdl_Y = ucast (Y p)\<rparr>) ps\<rparr>"
    by (intro draw_mem.equality) simp_all
  then show ?thesis
    by (simp add: DrawPoints_def)
qed

text \<open>
  Claim C10. For every slice of points and every colour, \<open>DrawPoints\<close> sets the draw
  colour and makes exactly one \<open>RenderDrawPoints\<close> call; its batch is as long as the
  slice, its element at each index is the point at that index with both coordinates
  converted to \<open>int32\<close>, and the caller's slice is the same after the call.
\<close>

theorem DrawPoints_batch:
  "\<exists>batch m.
     DrawPoints (Some ps) color =
       ([SetDrawColor (ucast (R color)) (ucast (G color)) (ucast (B color)) (ucast (A color)),
         RenderDrawPoints batch], Inr m) \<and>
     length batch = length ps \<and>
     (\<forall>i<length ps. batch ! i = \<lparr>sdl_X = ucast (X (ps ! i)), sdl_Y = ucast (Y (ps ! i))\<rparr>) \<and>
     points_mem m = ps"
  by (simp add: DrawPoints_Some)

lemma uint_ucast_sint: "uint (ucast (w :: 64 word) :: 8 word) = sint w mod 256"
proof -
  have "uint (ucast w :: 8 word) = take_bit 8 (uint w)"
    by (simp add: unsigned_ucast_eq)
  also have "\<dots> = take_bit 8 (signed_take_bit 63 (uint w))"
    by (simp add: take_bit_signed_take_bit)
  also have "\<dots> = take_bit 8 (sint w)"
    by (simp add: sint_uint)
  also have "\<dots> = sint w mod 256"
    by (simp add: take_bit_eq_mod)
  finally show ?thesis .
qed

theorem DrawPoints_batch_witness:
  "\<exists>batch m.
     fst (DrawPoints (Some [\<lparr>X = 3, Y = - 1\<rparr>, \<lparr>X = 4294967301, Y = 7\<rparr>])
            \<lparr>R = 255, G = 0, B = 0, A = 255\<rparr>) =
       [SetDrawColor 255 0 0 255, RenderDrawPoints batch] \<and>
     snd (DrawPoints (Some [\<lparr>X = 3, Y = - 1\<rparr>, \<lparr>X = 4294967301, Y = 7\<rparr>])
            \<lparr>R = 255, G = 0, B = 0, A = 255\<rparr>) = Inr m \<and>
     length batch = 2 \<and>
     batch ! 1 = \<lparr>sdl_X = 5, sdl_Y = 7\<rparr> \<and>
     points_mem m = [\<lparr>X = 3, Y = - 1\<rparr>, \<lparr>X = 4294967301, Y = 7\<rparr>]"
proof -
  let ?ps = "[\<lparr>X = 3, Y = - 1\<rparr>, \<lparr>X = 4294967301, Y = 7\<rparr>]"
  let ?c = "\<lparr>R = 255, G = 0, B = 0, A = 255\<rparr>"
  from DrawPoints_batch [of ?ps ?c] obtain batch m where
    d: "DrawPoints (Some ?ps) ?c =
       ([SetDrawColor (ucast (R ?c)) (ucast (G ?c)) (ucast (B ?c)) (ucast (A ?c)),
         RenderDrawPoints batch], Inr m)"
    and l: "length batch = length ?ps"
    and n: "\<forall>i<length ?ps. batch ! i = \<lparr>sdl_X = ucast (X (?ps ! i)), sdl_Y = ucast (Y (?ps ! i))\<rparr>"
    and p: "points_mem m = ?ps"
    by blast
  have one: "(1::nat) < length ?ps" by simp
  have "batch ! 1 = \<lparr>sdl_X = ucast (X (?ps ! 1)), sdl_Y = ucast (Y (?ps ! 1))\<rparr>"
    using n one by blast
  then have b: "batch ! 1 = \<lparr>sdl_X = 5, sdl_Y = 7\<rparr>"
    by simp
  show ?thesis
    using d l b p by (intro exI [of _ batch] exI [of _ m]) simp
qed

text \<open>
  Claim C8 as it is stated, that an empty point set makes no backend draw call, fails:
  for the empty slice and opaque red the trace holds one \<open>RenderDrawPoints\<close> call,
  with the empty batch, after the colour was set.
\<close>

theorem empty_batch_is_still_drawn:
  "filter is_RenderDrawPoints (fst (DrawPoints (Some []) \<lparr>R = 255, G = 0, B = 0, A = 255\<rparr>)) =
     [RenderDrawPoints []] \<and>
   fst (DrawPoints (Some []) \<lparr>R = 255, G = 0, B = 0, A = 255\<rparr>) =
     [SetDrawColor 255 0 0 255, RenderDrawPoints []]"
  by (simp add: DrawPoints_Some)

text \<open>
  Claim C8, amended. For the empty slice and any colour, \<open>DrawPoints\<close> sets the draw
  colour and makes exactly one \<open>RenderDrawPoints\<close> call, with the empty batch; it
  takes no error path of its own.
\<close>

theorem DrawPoints_empty:
  "DrawPoints (Some []) color =
     ([SetDrawColor (ucast (R color)) (ucast (G color)) (ucast (B color)) (ucast (A color)),
       RenderDrawPoints []],
      Inr \<lparr>points_mem = [], sdlPoints = []\<rparr>) \<and>
   length (filter is_RenderDrawPoints (fst (DrawPoints (Some []) color))) = 1"
  by (simp add: DrawPoints_Some)

lemma DrawPoints_hd:
  "hd (fst (DrawPoints points color)) =
     SetDrawColor (ucast (R color)) (ucast (G color)) (ucast (B color)) (ucast (A color))"
  by (cases points) (simp_all add: DrawPoints_def Let_def)

lemma color_passed_mod:
  "color_passed (hd (fst (DrawPoints points color))) = map (\<lambda>v. v mod 256) (color_given color)"
  by (simp add: DrawPoints_hd color_given_def uint_ucast_sint)

text \<open>
  Claim C9 as it is stated, that channels outside 0 to 255 reach the backend
  unmodified, fails: for the colour \<open>(256, -1, 0, 255)\<close> the backend is given
  \<open>(0, 255, 0, 255)\<close>.
\<close>

theorem DrawPoints_color_not_unmodified:
  "color_passed (hd (fst (DrawPoints (Some []) \<lparr>R = 256, G = - 1, B = 0, A = 255\<rparr>))) = [0, 255, 0, 255] \<and>
   color_given \<lparr>R = 256, G = - 1, B = 0, A = 255\<rparr> = [256, - 1, 0, 255] \<and>
   color_passed (hd (fst (DrawPoints (Some []) \<lparr>R = 256, G = - 1, B = 0, A = 255\<rparr>))) \<noteq>
     color_given \<lparr>R = 256, G = - 1, B = 0, A = 255\<rparr>"
  by (simp add: color_passed_mod color_given_def)

text \<open>
  Claim C9, amended. \<open>DrawPoints\<close> checks no channel: for every colour its first call
  sets the draw colour and it takes no error path. Each channel is converted to
  \<open>uint8\<close> before it is passed, so the backend is given the channel modulo 256; a
  channel between 0 and 255 is passed as it is.
\<close>

theorem DrawPoints_color_truncated:
  "hd (fst (DrawPoints points color)) =
     SetDrawColor (ucast (R color)) (ucast (G color)) (ucast (B color)) (ucast (A color)) \<and>
   color_passed (hd (fst (DrawPoints points color))) = map (\<lambda>v. v mod 256) (color_given color) \<and>
   ((\<forall>v\<in>set (color_given color). 0 \<le> v \<and> v \<le> 255) \<longrightarrow>
      color_passed (hd (fst (DrawPoints points color))) = color_given color) \<and>
   (\<exists>m. snd (DrawPoints (Some ps) color) = Inr m)"
proof (intro conjI impI)
  show "hd (fst (DrawPoints points color)) =
     SetDrawColor (ucast (R color)) (ucast (G color)) (ucast (B color)) (ucast (A color))"
    by (rule DrawPoints_hd)
next
  show "color_passed (hd (fst (DrawPoints points color))) = map (\<lambda>v. v mod 256) (color_given color)"
    by (rule color_passed_mod)
next
  assume "\<forall>v\<in>set (color_given color). 0 \<le> v \<and> v \<le> 255"
  then have "map (\<lambda>v. v mod 256) (color_given color) = color_given color"
    by (intro map_idI) auto
  then show "color_passed (hd (fst (DrawPoints points color))) = color_given color"
    by (simp only: color_passed_mod)
next
  show "\<exists>m. snd (DrawPoints (Some ps) color) = Inr m"
    by (simp add: DrawPoints_Some)
qed

theorem DrawPoints_color_truncated_witness:
  "color_passed (hd (fst (DrawPoints (Some [\<lparr>X = 3, Y = 4\<rparr>]) \<lparr>R = 255, G = 128, B = 0, A = 255\<rparr>))) =
     [255, 128, 0, 255]"
proof -
  let ?c = "\<lparr>R = 255, G = 128, B = 0, A = 255\<rparr>"
  have r: "\<forall>v\<in>set (color_given ?c). 0 \<le> v \<and> v \<le> 255"
    by (simp add: color_given_def)
  have "color_passed (hd (fst (DrawPoints (Some [\<lparr>X = 3, Y = 4\<rparr>]) ?c))) = color_given ?c"
    using DrawPoints_color_truncated [of "Some [\<lparr>X = 3, Y = 4\<rparr>]" ?c] r by blast
  then show ?thesis
    by (simp add: color_given_def)
qed

end
